theory Spec2Isabelle
  imports Main
begin

section \<open>The rule workshop of ai\_title\_workshop.py\<close>

text \<open>
  The development follows \<^verbatim>\<open>src/ai_title_workshop.py\<close>: the \<^verbatim>\<open>Rule\<close> dataclass, the
  pattern compiler (\<^verbatim>\<open>compile_rule\<close>, \<^verbatim>\<open>recompile_all\<close>), the hit counter
  (\<^verbatim>\<open>update_rule_hits\<close>), the preview, the scope operations and the two persisted
  documents. Strings are \<^typ>\<open>string\<close>; text that is not ASCII in the source is
  written as its UTF-8 bytes. Python's unbounded \<^verbatim>\<open>int\<close> is \<^typ>\<open>int\<close>.
\<close>

subsection \<open>Constants\<close>

definition SCOPE_TMP :: string where
  "SCOPE_TMP = ''TMP''"

definition SCOPE_GLOBAL :: string where
  "SCOPE_GLOBAL = ''__global__''"

definition SCOPE_GENRE :: string where
  "SCOPE_GENRE = ''__genre__''"

subsection \<open>The Rule dataclass\<close>

text \<open>
  The eleven dataclass fields, and \<open>hit\<close> for the attribute \<^verbatim>\<open>_hit\<close> that
  \<^verbatim>\<open>update_rule_hits\<close> writes on every rule object. The attribute is not a dataclass
  field: a rule that has none reads as 0 (\<^verbatim>\<open>getattr(r, "_hit", 0)\<close>), and the
  generated \<^verbatim>\<open>__eq__\<close> does not look at it (\<open>rule_eq\<close> below).
\<close>

record rule =
  key :: string
  name :: string
  pattern :: string
  why :: string
  enabled :: bool
  flags :: int
  source :: string
  error :: string
  genres :: "string list option"
  scope :: string
  apply_genre :: string
  hit :: nat

text \<open>The constructor call \<^verbatim>\<open>Rule(key, name, pattern, why, ...)\<close> with its defaults.\<close>

definition Rule ::
  "string \<Rightarrow> string \<Rightarrow> string \<Rightarrow> string \<Rightarrow> bool \<Rightarrow> int \<Rightarrow> string \<Rightarrow> string
     \<Rightarrow> string list option \<Rightarrow> rule" where
  "Rule k n p w en fl src err gs =
     \<lparr>key = k, name = n, pattern = p, why = w, enabled = en, flags = fl, source = src,
      error = err, genres = gs, scope = SCOPE_GLOBAL, apply_genre = '''', hit = 0\<rparr>"


subsection \<open>The regular-expression engine\<close>

text \<open>
  The engine is Python's \<^verbatim>\<open>re\<close>, which the program only calls. It is a parameter
  here: \<open>cmp\<close> stands for \<^verbatim>\<open>re.compile(pattern, flags)\<close> and \<open>srch\<close> for
  \<^verbatim>\<open>cre.search(t)\<close> read as a truth value. \<^verbatim>\<open>re.compile\<close> either returns a matcher,
  raises \<^verbatim>\<open>re.error\<close> with a message (a malformed pattern), or raises something else
  (\<^verbatim>\<open>ValueError\<close> for flags that exclude each other), which \<^verbatim>\<open>compile_rule\<close> does
  not catch.
\<close>

datatype 'm compile_outcome = Matcher 'm | Re_error string | Raises string

datatype py_error = IndexError | EngineError string

text \<open>
  \<^verbatim>\<open>compile_rule\<close>: a disabled rule or an empty pattern gives no matcher and calls
  nothing; \<^verbatim>\<open>re.error\<close> is caught, its text stored in the rule's error field.
\<close>

definition compile_rule ::
  "(string \<Rightarrow> int \<Rightarrow> 'm compile_outcome) \<Rightarrow> rule \<Rightarrow> py_error + (rule \<times> 'm option)" where
  "compile_rule cmp r =
     (if \<not> enabled r \<or> pattern r = [] then Inr (r, None)
      else (case cmp (pattern r) (flags r) of
              Matcher m \<Rightarrow> Inr (r, Some m)
            | Re_error msg \<Rightarrow> Inr (r\<lparr>error := msg\<rparr>, None)
            | Raises x \<Rightarrow> Inl (EngineError x)))"

text \<open>
  \<^verbatim>\<open>recompile_all\<close>: the cache starts empty; every rule in turn has its error cleared
  and its outcome appended. An exception that \<^verbatim>\<open>compile_rule\<close> lets through stops the
  loop where it is: the rules before keep their new state, the rule at hand has its
  error cleared, the cache holds the entries appended so far.
\<close>

fun recompile_loop ::
  "(string \<Rightarrow> int \<Rightarrow> 'm compile_outcome) \<Rightarrow> rule list
     \<Rightarrow> rule list \<times> 'm option list \<times> py_error option" where
  "recompile_loop cmp [] = ([], [], None)"
| "recompile_loop cmp (r # rs) =
     (case compile_rule cmp (r\<lparr>error := []\<rparr>) of
        Inl e \<Rightarrow> (r\<lparr>error := []\<rparr> # rs, [], Some e)
      | Inr (r', c) \<Rightarrow>
          (case recompile_loop cmp rs of
             (rs', cs, e) \<Rightarrow> (r' # rs', c # cs, e)))"

subsection \<open>Hit counting\<close>

text \<open>
  The inner loop of \<^verbatim>\<open>update_rule_hits\<close> for one title \<open>t\<close>:
  \<^verbatim>\<open>for idx, r in enumerate(self.rules)\<close>, from position \<open>idx\<close> on. Reading
  \<^verbatim>\<open>compiled[idx]\<close> beyond the cache raises. The rule that matches has its counter
  raised by one and the loop breaks.
\<close>

fun scan_rules ::
  "('m \<Rightarrow> string \<Rightarrow> bool) \<Rightarrow> 'm option list \<Rightarrow> string \<Rightarrow> nat \<Rightarrow> rule list
     \<Rightarrow> py_error + rule list" where
  "scan_rules srch compiled t idx [] = Inr []"
| "scan_rules srch compiled t idx (r # rs) =
     (if length compiled \<le> idx then Inl IndexError
      else (case compiled ! idx of
              None \<Rightarrow> map_sum id ((#) r) (scan_rules srch compiled t (Suc idx) rs)
            | Some cre \<Rightarrow>
                if \<not> enabled r then map_sum id ((#) r) (scan_rules srch compiled t (Suc idx) rs)
                else if srch cre t then Inr (r\<lparr>hit := hit r + 1\<rparr> # rs)
                else map_sum id ((#) r) (scan_rules srch compiled t (Suc idx) rs)))"

text \<open>
  The outer loop over the titles. An exception leaves the counters as they are at that
  moment.
\<close>

fun hits_loop ::
  "('m \<Rightarrow> string \<Rightarrow> bool) \<Rightarrow> 'm option list \<Rightarrow> rule list \<Rightarrow> string list
     \<Rightarrow> rule list \<times> py_error option" where
  "hits_loop srch compiled rs [] = (rs, None)"
| "hits_loop srch compiled rs (t # ts) =
     (case scan_rules srch compiled t 0 rs of
        Inl e \<Rightarrow> (rs, Some e)
      | Inr rs' \<Rightarrow> hits_loop srch compiled rs' ts)"

text \<open>
  \<^verbatim>\<open>update_rule_hits\<close>: every counter is reset, the titles are cut to the first 3000
  (\<^verbatim>\<open>titles[:3000]\<close>), then counted.
\<close>

definition update_rule_hits ::
  "('m \<Rightarrow> string \<Rightarrow> bool) \<Rightarrow> 'm option list \<Rightarrow> rule list \<Rightarrow> string list
     \<Rightarrow> rule list \<times> py_error option" where
  "update_rule_hits srch compiled rs titles =
     hits_loop srch compiled (map (\<lambda>r. r\<lparr>hit := 0\<rparr>) rs) (take 3000 titles)"


subsection \<open>The preview\<close>







subsection \<open>Scope visibility\<close>

text \<open>
  The local function \<^verbatim>\<open>visible\<close> of \<^verbatim>\<open>refresh_rule_tree\<close>; \<open>ctx\<close> is the selected
  scope and \<open>g\<close> the selected genre. An empty rule scope reads as the global one
  (\<^verbatim>\<open>getattr(r, "scope", SCOPE_GLOBAL) or SCOPE_GLOBAL\<close>).
\<close>

definition visible :: "string \<Rightarrow> string \<Rightarrow> rule \<Rightarrow> bool" where
  "visible ctx g r =
     (let rs = (if scope r = [] then SCOPE_GLOBAL else scope r) in
      if ctx = SCOPE_TMP then rs = SCOPE_TMP
      else if ctx = SCOPE_GENRE then rs = SCOPE_GENRE \<and> apply_genre r = g
      else rs = SCOPE_GLOBAL)"

subsection \<open>Documents\<close>

text \<open>
  A JSON object is a record of optional fields: a field is \<open>None\<close> when the key is
  absent, and otherwise holds a value of the type that the program itself writes
  there. Keys that the program never reads are left out. An entry of a rule list that
  is not an object is \<open>NotDict\<close>; the loaders skip it.
\<close>

record rule_dict =
  d_key :: "string option"
  d_name :: "string option"
  d_pattern :: "string option"
  d_why :: "string option"
  d_enabled :: "bool option"
  d_flags :: "int option"
  d_source :: "string option"
  d_genres :: "string list option"
  d_scope :: "string option"
  d_apply_genre :: "string option"
  d_error :: "string option"

datatype item = Dict rule_dict | NotDict

text \<open>\<^verbatim>\<open>rule_to_dict\<close>: seven keys always, four only when their value is truthy.\<close>

definition rule_to_dict :: "rule \<Rightarrow> rule_dict" where
  "rule_to_dict r =
     \<lparr>d_key = Some (key r), d_name = Some (name r), d_pattern = Some (pattern r),
      d_why = Some (why r), d_enabled = Some (enabled r), d_flags = Some (flags r),
      d_source = Some (source r),
      d_genres = (case genres r of None \<Rightarrow> None | Some gs \<Rightarrow> if gs = [] then None else Some gs),
      d_scope = (if scope r = [] then None else Some (scope r)),
      d_apply_genre = (if apply_genre r = [] then None else Some (apply_genre r)),
      d_error = (if error r = [] then None else Some (error r))\<rparr>"

text \<open>
  The ignore words by scope, the dictionary \<^verbatim>\<open>ignore_scoped\<close> with its keys
  \<^verbatim>\<open>__global__\<close>, \<^verbatim>\<open>TMP\<close> and \<^verbatim>\<open>__genre__\<close>. The program holds the loaded JSON
  object itself, so a key can be absent in memory too.
\<close>

record scoped =
  sd_global :: "string list option"
  sd_tmp :: "string list option"
  sd_genre :: "(string \<times> string list) list option"

record wdoc =
  w_genre :: "string option"
  w_exclude_examples :: "string list option"
  w_keep_examples :: "string list option"
  w_sample_titles :: "string list option"
  w_ignore_scoped :: "scoped option"
  w_ignore_words :: "string list option"
  w_rules :: "item list option"

text \<open>
  The content of a JSON file: an object, a bare list, or anything else that parses.
  \<^verbatim>\<open>safe_load_json\<close> gives \<^verbatim>\<open>None\<close> for a file that is missing or does not parse,
  which is \<open>None\<close> in the file store.
\<close>

datatype json_file = Doc wdoc | Items "item list" | Scalar

subsection \<open>Reading fields\<close>

text \<open>\<^verbatim>\<open>str(d.get(k) or default)\<close> for a string field.\<close>

definition or_str :: "string option \<Rightarrow> string \<Rightarrow> string" where
  "or_str v d = (case v of None \<Rightarrow> d | Some s \<Rightarrow> if s = [] then d else s)"

text \<open>\<^verbatim>\<open>list(d.get(k) or [])\<close> for a list field.\<close>

definition or_list :: "'a list option \<Rightarrow> 'a list" where
  "or_list v = (case v of None \<Rightarrow> [] | Some xs \<Rightarrow> xs)"

text \<open>
  The code points for which \<^verbatim>\<open>str.isspace\<close> holds, in UTF-8. \<open>blank s\<close> says that
  \<^verbatim>\<open>s.strip()\<close> is empty: \<open>s\<close> is a sequence of such code points.
\<close>

definition whitespace :: "string list" where
  "whitespace =
     [[CHR 0x09], [CHR 0x0A], [CHR 0x0B], [CHR 0x0C], [CHR 0x0D],
      [CHR 0x1C], [CHR 0x1D], [CHR 0x1E], [CHR 0x1F], [CHR 0x20],
      [CHR 0xC2, CHR 0x85], [CHR 0xC2, CHR 0xA0], [CHR 0xE1, CHR 0x9A, CHR 0x80],
      [CHR 0xE2, CHR 0x80, CHR 0x80], [CHR 0xE2, CHR 0x80, CHR 0x81],
      [CHR 0xE2, CHR 0x80, CHR 0x82], [CHR 0xE2, CHR 0x80, CHR 0x83],
      [CHR 0xE2, CHR 0x80, CHR 0x84], [CHR 0xE2, CHR 0x80, CHR 0x85],
      [CHR 0xE2, CHR 0x80, CHR 0x86], [CHR 0xE2, CHR 0x80, CHR 0x87],
      [CHR 0xE2, CHR 0x80, CHR 0x88], [CHR 0xE2, CHR 0x80, CHR 0x89],
      [CHR 0xE2, CHR 0x80, CHR 0x8A], [CHR 0xE2, CHR 0x80, CHR 0xA8],
      [CHR 0xE2, CHR 0x80, CHR 0xA9], [CHR 0xE2, CHR 0x80, CHR 0xAF],
      [CHR 0xE2, CHR 0x81, CHR 0x9F], [CHR 0xE3, CHR 0x80, CHR 0x80]]"

fun blank_upto :: "nat \<Rightarrow> string \<Rightarrow> bool" where
  "blank_upto n [] = True"
| "blank_upto 0 (c # s) = False"
| "blank_upto (Suc n) (c # s) =
     list_ex (\<lambda>w. take (length w) (c # s) = w \<and> blank_upto n (drop (length w) (c # s)))
       whitespace"

definition blank :: "string \<Rightarrow> bool" where
  "blank s = blank_upto (length s) s"

text \<open>
  The genre tags of a record: a list keeps its entries that are not blank
  (\<^verbatim>\<open>[str(x) for x in genres if str(x).strip()]\<close>), anything else is \<^verbatim>\<open>None\<close>.
\<close>

definition load_genres :: "string list option \<Rightarrow> string list option" where
  "load_genres g = (case g of None \<Rightarrow> None | Some xs \<Rightarrow> Some (filter (\<lambda>x. \<not> blank x) xs))"

text \<open>The decimal text of a length, for \<^verbatim>\<open>f"R_{len(rules)}"\<close> and \<^verbatim>\<open>f"custom_{n}"\<close>.\<close>

fun str_nat :: "nat \<Rightarrow> string" where
  "str_nat n =
     (if n < 10 then [''0123456789'' ! n]
      else str_nat (n div 10) @ [''0123456789'' ! (n mod 10)])"

declare str_nat.simps [simp del]

text \<open>
  The rule that \<^verbatim>\<open>load_rules_pack\<close> builds from one record, \<open>n\<close> being
  \<^verbatim>\<open>len(rules)\<close> at that moment. Scope and genre are not passed to the constructor.
\<close>

definition pack_rule_of :: "rule_dict \<Rightarrow> nat \<Rightarrow> rule" where
  "pack_rule_of it n =
     Rule (or_str (d_key it) (''R_'' @ str_nat n))
          (or_str (d_name it) ''rule'')
          (or_str (d_pattern it) [])
          (or_str (d_why it) [])
          (case d_enabled it of None \<Rightarrow> True | Some b \<Rightarrow> b)
          (case d_flags it of None \<Rightarrow> 0 | Some f \<Rightarrow> f)
          (or_str (d_source it) ''WORKSHOP'')
          (or_str (d_error it) [])
          (load_genres (d_genres it))"

fun pack_rules_loop :: "item list \<Rightarrow> rule list \<Rightarrow> rule list" where
  "pack_rules_loop [] acc = acc"
| "pack_rules_loop (NotDict # its) acc = pack_rules_loop its acc"
| "pack_rules_loop (Dict it # its) acc =
     pack_rules_loop its (acc @ [pack_rule_of it (length acc)])"

text \<open>
  The rule that \<^verbatim>\<open>load_workspace\<close> builds: the same constructor call, then the two
  assignments that restore scope and genre.
\<close>

definition ws_rule_of :: "rule_dict \<Rightarrow> nat \<Rightarrow> rule" where
  "ws_rule_of it n =
     (pack_rule_of it n)\<lparr>scope := or_str (d_scope it) SCOPE_GLOBAL,
                          apply_genre := or_str (d_apply_genre it) []\<rparr>"

fun ws_rules_loop :: "item list \<Rightarrow> rule list \<Rightarrow> rule list" where
  "ws_rules_loop [] acc = acc"
| "ws_rules_loop (NotDict # its) acc = ws_rules_loop its acc"
| "ws_rules_loop (Dict it # its) acc =
     ws_rules_loop its (acc @ [ws_rule_of it (length acc)])"


subsection \<open>The application state\<close>

text \<open>
  The fields of \<^verbatim>\<open>WorkshopApp\<close> that the operations read and write, the label that
  the scope selector shows (\<open>scope_var\<close>), and the JSON files by path. Widgets are
  left out: they show the state and hold none of it, but for the selection, which the
  operations take as an argument.
\<close>

record 'm app =
  workspace_path :: string
  rules_pack_path :: string
  workspace :: wdoc
  sample_titles :: "string list"
  exclude_examples :: "string list"
  keep_examples :: "string list"
  ignore_words :: "string list"
  genre :: string
  ignore_scoped :: scoped
  rules :: "rule list"
  compiled :: "'m option list"
  scope_var :: string
  files :: "string \<rightharpoonup> json_file"

text \<open>The default of the selected genre, and the name prefix of a new rule.\<close>

definition DEFAULT_GENRE :: string where
  "DEFAULT_GENRE = [CHR 0xE6, CHR 0x9C, CHR 0xAA, CHR 0xE9, CHR 0x81, CHR 0xB8,
                    CHR 0xE6, CHR 0x8A, CHR 0x9E]"

definition NEW_RULE_NAME :: string where
  "NEW_RULE_NAME = [CHR 0xE6, CHR 0x96, CHR 0xB0, CHR 0xE8, CHR 0xA6, CHR 0x8F,
                    CHR 0xE3, CHR 0x83, CHR 0xAB, CHR 0xE3, CHR 0x83, CHR 0xBC,
                    CHR 0xE3, CHR 0x83, CHR 0xAB]"

text \<open>\<^verbatim>\<open>SCOPE_LABELS\<close>, in the order of the dictionary.\<close>

definition SCOPE_LABELS :: "(string \<times> string) list" where
  "SCOPE_LABELS =
     [(SCOPE_TMP,
       [CHR 0x54, CHR 0x4D, CHR 0x50, CHR 0xEF, CHR 0xBC, CHR 0x88, CHR 0xE8, CHR 0xA9,
        CHR 0xA6, CHR 0xE4, CHR 0xBD, CHR 0x9C, CHR 0xEF, CHR 0xBC, CHR 0x89]),
      (SCOPE_GLOBAL,
       [CHR 0xE5, CHR 0x85, CHR 0xB1, CHR 0xE9, CHR 0x80, CHR 0x9A, CHR 0xEF, CHR 0xBC,
        CHR 0x88, CHR 0xE5, CHR 0x85, CHR 0xA8, CHR 0xE3, CHR 0x82, CHR 0xB8, CHR 0xE3,
        CHR 0x83, CHR 0xA3, CHR 0xE3, CHR 0x83, CHR 0xB3, CHR 0xE3, CHR 0x83, CHR 0xAB,
        CHR 0xEF, CHR 0xBC, CHR 0x89]),
      (SCOPE_GENRE,
       [CHR 0xE3, CHR 0x82, CHR 0xB8, CHR 0xE3, CHR 0x83, CHR 0xA3, CHR 0xE3, CHR 0x83,
        CHR 0xB3, CHR 0xE3, CHR 0x83, CHR 0xAB, CHR 0xE5, CHR 0x88, CHR 0xA5])]"

definition scope_key_from_label :: "string \<Rightarrow> string" where
  "scope_key_from_label label =
     (case find (\<lambda>kv. snd kv = label) SCOPE_LABELS of
        Some kv \<Rightarrow> fst kv
      | None \<Rightarrow> SCOPE_TMP)"

definition get_current_scope :: "'m app \<Rightarrow> string" where
  "get_current_scope st = scope_key_from_label (scope_var st)"

text \<open>
  The state that \<^verbatim>\<open>__init__\<close> sets up before it loads anything: no rule, an empty
  matcher cache, the temporary scope selected. \<^verbatim>\<open>self.ignore_scoped\<close> does not exist
  yet; it is the structure with no bucket here.
\<close>

definition init_app :: "string \<Rightarrow> string \<Rightarrow> (string \<rightharpoonup> json_file) \<Rightarrow> 'm app" where
  "init_app wp rp fs =
     \<lparr>workspace_path = wp, rules_pack_path = rp,
      workspace = \<lparr>w_genre = None, w_exclude_examples = None, w_keep_examples = None,
                   w_sample_titles = None, w_ignore_scoped = None, w_ignore_words = None,
                   w_rules = None\<rparr>,
      sample_titles = [], exclude_examples = [], keep_examples = [], ignore_words = [],
      genre = DEFAULT_GENRE,
      ignore_scoped = \<lparr>sd_global = None, sd_tmp = None, sd_genre = None\<rparr>,
      rules = [], compiled = [],
      scope_var = snd (SCOPE_LABELS ! 0), files = fs\<rparr>"

text \<open>
  An operation returns the state it leaves and the exception that ended it, if any.
  \<open>and_then\<close> is the next statement: it runs only when nothing was raised.
\<close>

definition and_then ::
  "'s \<times> py_error option \<Rightarrow> ('s \<Rightarrow> 's \<times> py_error option) \<Rightarrow> 's \<times> py_error option" where
  "and_then x f = (case x of (s, None) \<Rightarrow> f s | (s, Some e) \<Rightarrow> (s, Some e))"

definition recompile_all ::
  "(string \<Rightarrow> int \<Rightarrow> 'm compile_outcome) \<Rightarrow> 'm app \<Rightarrow> 'm app \<times> py_error option" where
  "recompile_all cmp st =
     (case recompile_loop cmp (rules st) of
        (rs, cs, e) \<Rightarrow> (st\<lparr>rules := rs, compiled := cs\<rparr>, e))"

text \<open>
  \<^verbatim>\<open>refresh_all\<close>: the hit counters are recomputed; the three calls after it redraw
  widgets from the state and scan no title that the counting has not scanned.
\<close>

definition refresh_all ::
  "('m \<Rightarrow> string \<Rightarrow> bool) \<Rightarrow> 'm app \<Rightarrow> 'm app \<times> py_error option" where
  "refresh_all srch st =
     (case update_rule_hits srch (compiled st) (rules st) (sample_titles st) of
        (rs, e) \<Rightarrow> (st\<lparr>rules := rs\<rparr>, e))"

subsection \<open>Saving and loading the workspace\<close>

text \<open>
  \<^verbatim>\<open>save_workspace\<close>: nothing without a path; else the last document is copied, its
  seven keys are set and it is written. Writing is taken to succeed.
\<close>

definition save_workspace :: "'m app \<Rightarrow> 'm app" where
  "save_workspace st =
     (if workspace_path st = [] then st
      else (let data = (workspace st)\<lparr>
                w_genre := Some (genre st),
                w_exclude_examples := Some (exclude_examples st),
                w_keep_examples := Some (keep_examples st),
                w_sample_titles := Some (sample_titles st),
                w_ignore_scoped := Some (ignore_scoped st),
                w_ignore_words := Some (or_list (sd_global (ignore_scoped st))),
                w_rules := Some (map (\<lambda>r. Dict (rule_to_dict r)) (rules st))\<rparr>
            in st\<lparr>files := (files st)(workspace_path st \<mapsto> Doc data), workspace := data\<rparr>))"

text \<open>
  \<^verbatim>\<open>_ensure_scoped_structures\<close>: a bucket that is not there becomes empty, a rule
  with an empty scope becomes global. When the loaded document has a scoped structure,
  \<^verbatim>\<open>self.ignore_scoped\<close> is the very dictionary inside \<^verbatim>\<open>self.workspace\<close>, and the
  buckets are filled in both.
\<close>

definition ensure_scoped_structures :: "'m app \<Rightarrow> 'm app" where
  "ensure_scoped_structures st =
     (let filled = \<lparr>sd_global = Some (or_list (sd_global (ignore_scoped st))),
                    sd_tmp = Some (or_list (sd_tmp (ignore_scoped st))),
                    sd_genre = Some (or_list (sd_genre (ignore_scoped st)))\<rparr>
      in st\<lparr>ignore_scoped := filled,
            workspace := (case w_ignore_scoped (workspace st) of
                            None \<Rightarrow> workspace st
                          | Some sc \<Rightarrow> (workspace st)\<lparr>w_ignore_scoped := Some filled\<rparr>),
            rules := map (\<lambda>r. if scope r = [] then r\<lparr>scope := SCOPE_GLOBAL\<rparr> else r)
                       (rules st)\<rparr>)"

text \<open>
  \<^verbatim>\<open>load_workspace\<close>: a file that is missing, does not parse or is no object changes
  nothing (an error box is shown). Otherwise every field is read, with the flat legacy
  list as the global bucket when there is no scoped structure; the matcher cache is
  not rebuilt before \<^verbatim>\<open>refresh_all\<close> counts with it.
\<close>

definition load_workspace ::
  "('m \<Rightarrow> string \<Rightarrow> bool) \<Rightarrow> string \<Rightarrow> 'm app \<Rightarrow> 'm app \<times> py_error option" where
  "load_workspace srch path st =
     (case files st path of
        Some (Doc data) \<Rightarrow>
          refresh_all srch (ensure_scoped_structures (st\<lparr>
            workspace_path := path,
            workspace := data,
            genre := or_str (w_genre data) DEFAULT_GENRE,
            ignore_scoped :=
              (case w_ignore_scoped data of
                 Some sc \<Rightarrow> sc
               | None \<Rightarrow> \<lparr>sd_global = Some (or_list (w_ignore_words data)),
                          sd_tmp = Some [], sd_genre = Some []\<rparr>),
            exclude_examples := or_list (w_exclude_examples data),
            keep_examples := or_list (w_keep_examples data),
            sample_titles := or_list (w_sample_titles data),
            rules := ws_rules_loop (or_list (w_rules data)) []\<rparr>))
      | _ \<Rightarrow> (st, None))"

text \<open>
  \<^verbatim>\<open>load_rules_pack\<close>: a file that is missing or does not parse changes nothing. An
  object gives its \<^verbatim>\<open>rules\<close>, a list gives itself, anything else gives no rule.
\<close>

definition load_rules_pack ::
  "(string \<Rightarrow> int \<Rightarrow> 'm compile_outcome) \<Rightarrow> ('m \<Rightarrow> string \<Rightarrow> bool) \<Rightarrow> string \<Rightarrow> 'm app
     \<Rightarrow> 'm app \<times> py_error option" where
  "load_rules_pack cmp srch path st =
     (case files st path of
        None \<Rightarrow> (st, None)
      | Some data \<Rightarrow>
          (let rules_data = (case data of
                               Doc d \<Rightarrow> or_list (w_rules d)
                             | Items its \<Rightarrow> its
                             | Scalar \<Rightarrow> [])
           in and_then
                (recompile_all cmp
                   (st\<lparr>rules_pack_path := path, rules := pack_rules_loop rules_data []\<rparr>))
                (refresh_all srch)))"

subsection \<open>Operations on rules\<close>

text \<open>
  \<^verbatim>\<open>add_new_rule\<close>: the key and the name carry the number of rules at that moment;
  the new rule takes the selected scope, and the selected genre under the genre scope.
\<close>

definition add_new_rule ::
  "(string \<Rightarrow> int \<Rightarrow> 'm compile_outcome) \<Rightarrow> ('m \<Rightarrow> string \<Rightarrow> bool) \<Rightarrow> 'm app
     \<Rightarrow> 'm app \<times> py_error option" where
  "add_new_rule cmp srch st =
     (let n = length (rules st) in
      and_then
        (recompile_all cmp
           (st\<lparr>rules := rules st @
              [Rule (''custom_'' @ str_nat n) (NEW_RULE_NAME @ str_nat n) [] [] True 0
                 ''WORKSHOP'' [] None]\<rparr>))
        (\<lambda>s. let sc = get_current_scope s;
                  r = last (rules s);
                  r' = r\<lparr>scope := sc, apply_genre := (if sc = SCOPE_GENRE then genre s else [])\<rparr>
              in refresh_all srch (save_workspace (s\<lparr>rules := butlast (rules s) @ [r']\<rparr>))))"

text \<open>
  \<^verbatim>\<open>add_heuristics\<close>, \<open>base\<close> being the list that \<^verbatim>\<open>heuristic_suggestions\<close>
  returns: a starter rule is appended unless its key was in the collection before.
\<close>

definition add_heuristics ::
  "(string \<Rightarrow> int \<Rightarrow> 'm compile_outcome) \<Rightarrow> ('m \<Rightarrow> string \<Rightarrow> bool) \<Rightarrow> rule list \<Rightarrow> 'm app
     \<Rightarrow> 'm app \<times> py_error option" where
  "add_heuristics cmp srch base st =
     (let existing = set (map key (rules st)) in
      and_then
        (recompile_all cmp (st\<lparr>rules := rules st @ filter (\<lambda>r. key r \<notin> existing) base\<rparr>))
        (refresh_all srch))"

text \<open>
  \<^verbatim>\<open>delete_selected_rule\<close>: \<open>sel\<close> is the selected index, \<open>yes\<close> the answer to the
  question box. \<^verbatim>\<open>pop\<close> raises beyond the list.
\<close>

definition delete_selected_rule ::
  "(string \<Rightarrow> int \<Rightarrow> 'm compile_outcome) \<Rightarrow> ('m \<Rightarrow> string \<Rightarrow> bool) \<Rightarrow> nat option \<Rightarrow> bool
     \<Rightarrow> 'm app \<Rightarrow> 'm app \<times> py_error option" where
  "delete_selected_rule cmp srch sel yes st =
     (case sel of
        None \<Rightarrow> (st, None)
      | Some idx \<Rightarrow>
          if \<not> yes then (st, None)
          else if length (rules st) \<le> idx then (st, Some IndexError)
          else and_then
                 (recompile_all cmp (st\<lparr>rules := take idx (rules st) @ drop (Suc idx) (rules st)\<rparr>))
                 (refresh_all srch))"

text \<open>
  \<^verbatim>\<open>promote_selected_rule_to_global\<close> and \<^verbatim>\<open>promote_selected_rule_to_genre\<close>:
  nothing without a selection; else the rule at the selected index is rewritten and
  the workspace saved.
\<close>

definition promote_selected_rule_to_global ::
  "nat option \<Rightarrow> 'm app \<Rightarrow> 'm app \<times> py_error option" where
  "promote_selected_rule_to_global sel st =
     (case sel of
        None \<Rightarrow> (st, None)
      | Some i \<Rightarrow>
          if length (rules st) \<le> i then (st, Some IndexError)
          else (save_workspace
                  (st\<lparr>rules := (rules st)[i := (rules st ! i)\<lparr>scope := SCOPE_GLOBAL,
                                                               apply_genre := []\<rparr>]\<rparr>),
                None))"

definition promote_selected_rule_to_genre ::
  "nat option \<Rightarrow> 'm app \<Rightarrow> 'm app \<times> py_error option" where
  "promote_selected_rule_to_genre sel st =
     (case sel of
        None \<Rightarrow> (st, None)
      | Some i \<Rightarrow>
          if length (rules st) \<le> i then (st, Some IndexError)
          else (save_workspace
                  (st\<lparr>rules := (rules st)[i := (rules st ! i)\<lparr>scope := SCOPE_GENRE,
                                                               apply_genre := genre st\<rparr>]\<rparr>),
                None))"

text \<open>
  \<^verbatim>\<open>clear_tmp_scope\<close>: \<open>yes\<close> is the answer to the question box. The rules outside
  the temporary scope are kept, the temporary bucket is emptied, the workspace saved.
\<close>

definition clear_tmp_scope :: "bool \<Rightarrow> 'm app \<Rightarrow> 'm app" where
  "clear_tmp_scope yes st =
     (if \<not> yes then st
      else save_workspace
             (st\<lparr>rules := filter (\<lambda>r. scope r \<noteq> SCOPE_TMP) (rules st),
                 ignore_scoped := (ignore_scoped st)\<lparr>sd_tmp := Some []\<rparr>\<rparr>))"

subsection \<open>A stand-in engine for examples\<close>

text \<open>
  The examples below need an engine to run. This one covers a fragment on which it
  agrees with \<^verbatim>\<open>re\<close>: with flags 0, a pattern of ASCII letters, digits and spaces
  matches where it occurs in the title, and the unbalanced group \<^verbatim>\<open>(abc\<close> is
  refused with the message that \<^verbatim>\<open>re\<close> gives. Outside the fragment it raises; no
  example goes there.
\<close>

definition plain_char :: "char \<Rightarrow> bool" where
  "plain_char c \<longleftrightarrow>
     c \<in> set ''abcdefghijklmnopqrstuvwxyzABCDEFGHIJKLMNOPQRSTUVWXYZ0123456789 ''"

definition lit_compile :: "string \<Rightarrow> int \<Rightarrow> string compile_outcome" where
  "lit_compile p f =
     (if f = 0 \<and> p = ''(abc'' then
        Re_error ''missing ), unterminated subpattern at position 0''
      else if f = 0 \<and> list_all plain_char p then Matcher p
      else Raises ''outside the fragment'')"

fun lit_search :: "string \<Rightarrow> string \<Rightarrow> bool" where
  "lit_search p [] = (p = [])"
| "lit_search p (c # t) = (take (length p) (c # t) = p \<or> lit_search p t)"


subsection \<open>Notions that the properties speak of\<close>

text \<open>
  Rule \<open>r\<close> at position \<open>i\<close> fires on title \<open>t\<close>: it is enabled, the cache holds a
  matcher at \<open>i\<close>, and the matcher finds its pattern somewhere in \<open>t\<close>.
\<close>

definition fires ::
  "('m \<Rightarrow> string \<Rightarrow> bool) \<Rightarrow> 'm option list \<Rightarrow> string \<Rightarrow> nat \<Rightarrow> rule \<Rightarrow> bool" where
  "fires srch cs t i r \<longleftrightarrow>
     enabled r \<and> (case cs ! i of None \<Rightarrow> False | Some cre \<Rightarrow> srch cre t)"

text \<open>The first position, in collection order, whose rule fires on \<open>t\<close>.\<close>

definition first_match ::
  "('m \<Rightarrow> string \<Rightarrow> bool) \<Rightarrow> 'm option list \<Rightarrow> rule list \<Rightarrow> string \<Rightarrow> nat option" where
  "first_match srch cs rs t =
     find (\<lambda>i. fires srch cs t i (rs ! i)) [0..<length rs]"



subsection \<open>Example data\<close>

text \<open>An enabled rule with a key (also its name), a pattern and a scope.\<close>

definition ex_rule :: "string \<Rightarrow> string \<Rightarrow> string \<Rightarrow> rule" where
  "ex_rule k p sc = (Rule k k p [] True 0 ''WORKSHOP'' [] None)\<lparr>scope := sc\<rparr>"

text \<open>A state with the given rules, a path to save to, and nothing on file.\<close>

definition ex_app :: "rule list \<Rightarrow> string app" where
  "ex_app rs =
     \<lparr>workspace_path = ''workspace.json'', rules_pack_path = ''rules_pack.json'',
      workspace = \<lparr>w_genre = None, w_exclude_examples = None, w_keep_examples = None,
                   w_sample_titles = None, w_ignore_scoped = None, w_ignore_words = None,
                   w_rules = None\<rparr>,
      sample_titles = [''Show Title 01'', ''Random Clean Title''],
      exclude_examples = [''Show Title 01''], keep_examples = [''Random Clean Title''],
      ignore_words = [], genre = ''Comics'',
      ignore_scoped = \<lparr>sd_global = Some [''sample''], sd_tmp = Some [''draft''],
                       sd_genre = Some [(''Comics'', [''scan''])]\<rparr>,
      rules = rs, compiled = map (\<lambda>r. None) rs,
      scope_var = snd (SCOPE_LABELS ! 0), files = Map.empty\<rparr>"

text \<open>
  A rule without what recompiling and counting write on it: the error and the counter.
\<close>

definition bare :: "rule \<Rightarrow> rule" where
  "bare r = r\<lparr>error := [], hit := 0\<rparr>"

text \<open>A serialized rule with a key, a pattern, a scope and a genre, and nothing else.\<close>

definition ex_dict :: "string \<Rightarrow> string \<Rightarrow> string \<Rightarrow> string \<Rightarrow> rule_dict" where
  "ex_dict k p sc g =
     \<lparr>d_key = Some k, d_name = None, d_pattern = Some p, d_why = None, d_enabled = None,
      d_flags = None, d_source = None, d_genres = None, d_scope = Some sc,
      d_apply_genre = Some g, d_error = None\<rparr>"

text \<open>A workspace document with sample titles and rules, and nothing else.\<close>

definition ex_doc :: "string list \<Rightarrow> item list \<Rightarrow> json_file" where
  "ex_doc ts its =
     Doc \<lparr>w_genre = None, w_exclude_examples = None, w_keep_examples = None,
          w_sample_titles = Some ts, w_ignore_scoped = None, w_ignore_words = None,
          w_rules = Some its\<rparr>"


section \<open>Properties of the hit counting\<close>



lemma first_match_Some_iff:
  "first_match srch cs rs t = Some i \<longleftrightarrow>
     i < length rs \<and> fires srch cs t i (rs ! i) \<and> (\<forall>j<i. \<not> fires srch cs t j (rs ! j))"
  unfolding first_match_def by (auto simp: find_Some_iff)






text \<open>One title raises the sum of the counters by one at most, whatever the cache.\<close>

lemma scan_rules_sum:
  "scan_rules srch cs t idx rs = Inr rs' \<Longrightarrow>
   sum_list (map hit rs') \<le> sum_list (map hit rs) + 1"
proof (induction rs arbitrary: idx rs')
  case Nil
  then show ?case by simp
next
  case (Cons r rs)
  show ?case
  proof (cases "scan_rules srch cs t (Suc idx) rs")
    case (Inl e)
    then show ?thesis using Cons.prems by (auto split: if_splits option.splits)
  next
    case (Inr rs1)
    then have "sum_list (map hit rs1) \<le> sum_list (map hit rs) + 1"
      using Cons.IH by blast
    then show ?thesis using Cons.prems Inr by (auto split: if_splits option.splits)
  qed
qed

lemma hits_loop_sum:
  "sum_list (map hit (fst (hits_loop srch cs rs ts))) \<le> sum_list (map hit rs) + length ts"
proof (induction ts arbitrary: rs)
  case Nil
  then show ?case by simp
next
  case (Cons t ts)
  show ?case
  proof (cases "scan_rules srch cs t 0 rs")
    case (Inl e)
    then show ?thesis by simp
  next
    case (Inr rs1)
    have "sum_list (map hit (fst (hits_loop srch cs rs1 ts))) \<le> sum_list (map hit rs1) + length ts"
      by (rule Cons.IH)
    moreover have "sum_list (map hit rs1) \<le> sum_list (map hit rs) + 1"
      using Inr by (rule scan_rules_sum)
    ultimately show ?thesis using Inr by simp
  qed
qed

lemma sum_hit_reset: "sum_list (map hit (map (\<lambda>r. r\<lparr>hit := 0\<rparr>) rs)) = 0"
  by (induction rs) auto

text \<open>
  When \<^verbatim>\<open>recompile_all\<close> ends without an exception the cache has one entry for
  every rule, which is what the counting below asks for.
\<close>

lemma recompile_loop_lengths:
  "recompile_loop cmp rs = (rs', cs, None) \<Longrightarrow> length rs' = length rs \<and> length cs = length rs"
proof (induction rs arbitrary: rs' cs)
  case Nil
  then show ?case by simp
next
  case (Cons r rs)
  show ?case
  proof (cases "compile_rule cmp (r\<lparr>error := []\<rparr>)")
    case (Inl e)
    then show ?thesis using Cons.prems by simp
  next
    case (Inr p)
    obtain r1 c1 where p: "p = (r1, c1)" by (cases p)
    obtain rs1 cs1 e1 where rc: "recompile_loop cmp rs = (rs1, cs1, e1)"
      by (cases "recompile_loop cmp rs") auto
    have "e1 = None" and "rs' = r1 # rs1" and "cs = c1 # cs1"
      using Cons.prems Inr p rc by simp_all
    then show ?thesis using Cons.IH [of rs1 cs1] rc by simp
  qed
qed

text \<open>
  With a cache that has an entry for every rule, \<open>scan_rules_first_match\<close> and
  \<open>update_rule_hits_counts\<close> above are what the hit counting does: first match wins,
  over the first 3000 titles. The cache is built by \<^verbatim>\<open>recompile_all\<close> only, and
  \<^verbatim>\<open>load_workspace\<close> and \<^verbatim>\<open>clear_tmp_scope\<close> change the rules without calling it.
\<close>

text \<open>
  Claim C1 at two failing inputs. At startup the cache is empty: loading a workspace
  with one rule, whose pattern compiles and matches the one sample title, ends in an
  \<^verbatim>\<open>IndexError\<close> and the rule has no hit. After the temporary rule in front of it is
  cleared, a global rule sits where the cache still holds the matcher of the cleared
  rule: it gets the hit for a title that its own pattern does not match.
\<close>

theorem update_rule_hits_stale_cache:
  "lit_compile ''abc'' 0 = Matcher ''abc'' \<and> lit_search ''abc'' ''xxabc'' \<and>
   snd (load_workspace lit_search ''workspace.json''
          (init_app ''workspace.json'' ''rules_pack.json''
             [''workspace.json'' \<mapsto>
                ex_doc [''xxabc''] [Dict (ex_dict ''a'' ''abc'' SCOPE_GLOBAL [])]])) =
     Some IndexError \<and>
   map hit (rules (fst (load_workspace lit_search ''workspace.json''
          (init_app ''workspace.json'' ''rules_pack.json''
             [''workspace.json'' \<mapsto>
                ex_doc [''xxabc''] [Dict (ex_dict ''a'' ''abc'' SCOPE_GLOBAL [])]])))) = [0] \<and>
   \<not> lit_search ''zzz'' ''Show Title 01'' \<and>
   compiled (fst (recompile_all lit_compile
      (ex_app [ex_rule ''t'' ''Show'' SCOPE_TMP, ex_rule ''g'' ''zzz'' SCOPE_GLOBAL]))) =
     [Some ''Show'', Some ''zzz''] \<and>
   rules (fst (refresh_all lit_search (clear_tmp_scope True (fst (recompile_all lit_compile
      (ex_app [ex_rule ''t'' ''Show'' SCOPE_TMP, ex_rule ''g'' ''zzz'' SCOPE_GLOBAL])))))) =
     [(ex_rule ''g'' ''zzz'' SCOPE_GLOBAL)\<lparr>hit := 1\<rparr>]"
  by (simp add: load_workspace_def init_app_def ex_doc_def ex_dict_def ex_app_def ex_rule_def
        Rule_def ensure_scoped_structures_def refresh_all_def update_rule_hits_def
        ws_rule_of_def pack_rule_of_def or_str_def or_list_def load_genres_def Let_def
        lit_compile_def plain_char_def recompile_all_def compile_rule_def clear_tmp_scope_def
        save_workspace_def SCOPE_TMP_def SCOPE_GLOBAL_def)

text \<open>
  Claim C9. Whatever the rules, the cache and the titles, the counters that the hit
  counting leaves add up to at most the number of titles (also when the counting stops
  on an exception).
\<close>

theorem update_rule_hits_sum_le:
  "sum_list (map hit (fst (update_rule_hits srch cs rs titles))) \<le> length titles"
proof -
  let ?rs0 = "map (\<lambda>r. r\<lparr>hit := 0\<rparr>) rs"
  let ?ts = "take 3000 titles"
  have a: "sum_list (map hit (fst (hits_loop srch cs ?rs0 ?ts)))
             \<le> sum_list (map hit ?rs0) + length ?ts"
    by (rule hits_loop_sum)
  have b: "sum_list (map hit ?rs0) = 0"
    by (rule sum_hit_reset)
  have c: "length ?ts \<le> length titles"
    by simp
  from a b c have "sum_list (map hit (fst (hits_loop srch cs ?rs0 ?ts))) \<le> length titles"
    by linarith
  then show ?thesis by (simp only: update_rule_hits_def)
qed

section \<open>Serializing a rule\<close>

text \<open>
  Claim C5, as the claim has it, fails on the scope: a rule built with the defaults has
  no genre tags, the global scope, no genre and no error, and its record holds the key
  \<^verbatim>\<open>scope\<close> with the global tag.
\<close>

theorem rule_to_dict_scope_counterexample:
  "genres (Rule ''k'' ''n'' ''p'' ''w'' True 0 ''WORKSHOP'' [] None) = None \<and>
   scope (Rule ''k'' ''n'' ''p'' ''w'' True 0 ''WORKSHOP'' [] None) = SCOPE_GLOBAL \<and>
   apply_genre (Rule ''k'' ''n'' ''p'' ''w'' True 0 ''WORKSHOP'' [] None) = [] \<and>
   error (Rule ''k'' ''n'' ''p'' ''w'' True 0 ''WORKSHOP'' [] None) = [] \<and>
   d_scope (rule_to_dict (Rule ''k'' ''n'' ''p'' ''w'' True 0 ''WORKSHOP'' [] None)) = Some ''__global__''"
  by (simp add: rule_to_dict_def Rule_def SCOPE_GLOBAL_def)

text \<open>
  Claim C5, amended. A rule with no genre tags (none, or an empty list), an empty genre
  and an empty error serializes without the keys \<^verbatim>\<open>genres\<close>, \<^verbatim>\<open>apply_genre\<close> and
  \<^verbatim>\<open>error\<close>; the key \<^verbatim>\<open>scope\<close> is left out only when the scope is the empty string,
  and holds the scope otherwise, the global tag included.
\<close>

theorem rule_to_dict_omits:
  assumes "genres r = None \<or> genres r = Some []" and "apply_genre r = []" and "error r = []"
  shows "d_genres (rule_to_dict r) = None \<and> d_apply_genre (rule_to_dict r) = None \<and>
         d_error (rule_to_dict r) = None \<and>
         d_scope (rule_to_dict r) = (if scope r = [] then None else Some (scope r))"
  using assms by (auto simp: rule_to_dict_def)

theorem rule_to_dict_omits_witness:
  "d_genres (rule_to_dict (Rule ''k'' ''n'' ''p'' ''w'' True 0 ''WORKSHOP'' [] None)) = None \<and>
   d_apply_genre (rule_to_dict (Rule ''k'' ''n'' ''p'' ''w'' True 0 ''WORKSHOP'' [] None)) = None \<and>
   d_error (rule_to_dict (Rule ''k'' ''n'' ''p'' ''w'' True 0 ''WORKSHOP'' [] None)) = None \<and>
   d_scope (rule_to_dict (Rule ''k'' ''n'' ''p'' ''w'' True 0 ''WORKSHOP'' [] None)) = Some ''__global__'' \<and>
   d_scope (rule_to_dict ((Rule ''k'' ''n'' ''p'' ''w'' True 0 ''WORKSHOP'' [] (Some []))\<lparr>scope := []\<rparr>)) = None"
  using rule_to_dict_omits [of "Rule ''k'' ''n'' ''p'' ''w'' True 0 ''WORKSHOP'' [] None"]
        rule_to_dict_omits [of "(Rule ''k'' ''n'' ''p'' ''w'' True 0 ''WORKSHOP'' [] (Some []))\<lparr>scope := []\<rparr>"]
  by (simp add: Rule_def SCOPE_GLOBAL_def)

section \<open>Clearing the temporary scope\<close>

text \<open>
  Claim C7. Once confirmed in the question box, clearing the temporary scope keeps
  exactly the rules whose scope is not the temporary tag, in their order, empties the
  temporary bucket and leaves the global bucket and the genre buckets as they were.
  Declined, it changes nothing.
\<close>

theorem clear_tmp_scope_effect:
  "rules (clear_tmp_scope True st) = filter (\<lambda>r. scope r \<noteq> SCOPE_TMP) (rules st) \<and>
   sd_tmp (ignore_scoped (clear_tmp_scope True st)) = Some [] \<and>
   sd_global (ignore_scoped (clear_tmp_scope True st)) = sd_global (ignore_scoped st) \<and>
   sd_genre (ignore_scoped (clear_tmp_scope True st)) = sd_genre (ignore_scoped st) \<and>
   clear_tmp_scope False st = st"
  by (simp add: clear_tmp_scope_def save_workspace_def Let_def)

text \<open>Three temporary rules among two global ones: the two global ones remain.\<close>

theorem clear_tmp_scope_effect_witness:
  "rules (clear_tmp_scope True
      (ex_app [ex_rule ''t1'' ''a'' SCOPE_TMP, ex_rule ''g1'' ''b'' SCOPE_GLOBAL,
               ex_rule ''t2'' ''c'' SCOPE_TMP, ex_rule ''g2'' ''d'' SCOPE_GLOBAL,
               ex_rule ''t3'' ''e'' SCOPE_TMP])) =
     [ex_rule ''g1'' ''b'' SCOPE_GLOBAL, ex_rule ''g2'' ''d'' SCOPE_GLOBAL] \<and>
   ignore_scoped (clear_tmp_scope True
      (ex_app [ex_rule ''t1'' ''a'' SCOPE_TMP, ex_rule ''g1'' ''b'' SCOPE_GLOBAL,
               ex_rule ''t2'' ''c'' SCOPE_TMP, ex_rule ''g2'' ''d'' SCOPE_GLOBAL,
               ex_rule ''t3'' ''e'' SCOPE_TMP])) =
     \<lparr>sd_global = Some [''sample''], sd_tmp = Some [],
      sd_genre = Some [(''Comics'', [''scan''])]\<rparr>"
  using clear_tmp_scope_effect
    [of "ex_app [ex_rule ''t1'' ''a'' SCOPE_TMP, ex_rule ''g1'' ''b'' SCOPE_GLOBAL,
               ex_rule ''t2'' ''c'' SCOPE_TMP, ex_rule ''g2'' ''d'' SCOPE_GLOBAL,
               ex_rule ''t3'' ''e'' SCOPE_TMP]"]
  by (simp add: ex_app_def ex_rule_def Rule_def SCOPE_GLOBAL_def SCOPE_TMP_def scoped.equality)

section \<open>Promotion to the global scope\<close>

text \<open>
  Claim C8. Promoting the rule at a valid index sets its scope to the global tag and
  its genre to the empty string and touches nothing else in the collection; on a rule
  that is global with an empty genre already the collection stays as it is, and
  promoting twice gives what promoting once gives.
\<close>

theorem promote_to_global_effect:
  assumes "i < length (rules st)"
  shows "snd (promote_selected_rule_to_global (Some i) st) = None \<and>
         rules (fst (promote_selected_rule_to_global (Some i) st)) =
           (rules st)[i := (rules st ! i)\<lparr>scope := SCOPE_GLOBAL, apply_genre := []\<rparr>] \<and>
         scope (rules (fst (promote_selected_rule_to_global (Some i) st)) ! i) = SCOPE_GLOBAL \<and>
         apply_genre (rules (fst (promote_selected_rule_to_global (Some i) st)) ! i) = [] \<and>
         (scope (rules st ! i) = SCOPE_GLOBAL \<and> apply_genre (rules st ! i) = [] \<longrightarrow>
            rules (fst (promote_selected_rule_to_global (Some i) st)) = rules st) \<and>
         rules (fst (promote_selected_rule_to_global (Some i)
                  (fst (promote_selected_rule_to_global (Some i) st)))) =
           rules (fst (promote_selected_rule_to_global (Some i) st))"
proof -
  have same: "r\<lparr>scope := scope r, apply_genre := apply_genre r\<rparr> = r" for r :: rule
    by simp
  show ?thesis
    using assms
    by (auto simp: promote_selected_rule_to_global_def save_workspace_def Let_def
          list_update_same_conv)
qed

text \<open>A genre rule becomes global; a global rule stays what it is.\<close>

theorem promote_to_global_effect_witness:
  "0 < length (rules (ex_app [(ex_rule ''a'' ''p'' SCOPE_GENRE)\<lparr>apply_genre := ''Comics''\<rparr>,
                             ex_rule ''b'' ''q'' SCOPE_GLOBAL])) \<and>
   rules (fst (promote_selected_rule_to_global (Some 0)
      (ex_app [(ex_rule ''a'' ''p'' SCOPE_GENRE)\<lparr>apply_genre := ''Comics''\<rparr>,
               ex_rule ''b'' ''q'' SCOPE_GLOBAL]))) =
     [ex_rule ''a'' ''p'' SCOPE_GLOBAL, ex_rule ''b'' ''q'' SCOPE_GLOBAL] \<and>
   rules (fst (promote_selected_rule_to_global (Some 1)
      (ex_app [(ex_rule ''a'' ''p'' SCOPE_GENRE)\<lparr>apply_genre := ''Comics''\<rparr>,
               ex_rule ''b'' ''q'' SCOPE_GLOBAL]))) =
     [(ex_rule ''a'' ''p'' SCOPE_GENRE)\<lparr>apply_genre := ''Comics''\<rparr>,
      ex_rule ''b'' ''q'' SCOPE_GLOBAL]"
  using promote_to_global_effect
    [of 0 "ex_app [(ex_rule ''a'' ''p'' SCOPE_GENRE)\<lparr>apply_genre := ''Comics''\<rparr>,
                   ex_rule ''b'' ''q'' SCOPE_GLOBAL]"]
        promote_to_global_effect
    [of 1 "ex_app [(ex_rule ''a'' ''p'' SCOPE_GENRE)\<lparr>apply_genre := ''Comics''\<rparr>,
                   ex_rule ''b'' ''q'' SCOPE_GLOBAL]"]
  by (simp add: ex_app_def ex_rule_def Rule_def)

section \<open>What recompiling and counting leave alone\<close>

lemma compile_rule_bare:
  "compile_rule cmp r = Inr (r', c) \<Longrightarrow> bare r' = bare r"
  by (auto simp: compile_rule_def bare_def split: if_splits compile_outcome.splits)

lemma recompile_loop_bare:
  "map bare (fst (recompile_loop cmp rs)) = map bare rs"
proof (induction rs)
  case Nil
  then show ?case by simp
next
  case (Cons r rs)
  have b0: "bare (r\<lparr>error := []\<rparr>) = bare r"
    by (simp add: bare_def)
  show ?case
  proof (cases "compile_rule cmp (r\<lparr>error := []\<rparr>)")
    case (Inl e)
    then show ?thesis using b0 by simp
  next
    case (Inr p)
    obtain r' c where p: "p = (r', c)" by (cases p)
    obtain rs' cs e where rc: "recompile_loop cmp rs = (rs', cs, e)"
      by (cases "recompile_loop cmp rs") auto
    have "bare r' = bare r"
      using compile_rule_bare [of cmp "r\<lparr>error := []\<rparr>" r' c] Inr p b0 by simp
    then show ?thesis using Inr p rc Cons.IH by simp
  qed
qed

lemma bare_hit: "bare (r\<lparr>hit := h\<rparr>) = bare r"
  by (simp add: bare_def)

lemma scan_rules_bare:
  "scan_rules srch cs t idx rs = Inr rs' \<Longrightarrow> map bare rs' = map bare rs"
proof (induction rs arbitrary: idx rs')
  case Nil
  then show ?case by simp
next
  case (Cons r rs)
  show ?case
  proof (cases "scan_rules srch cs t (Suc idx) rs")
    case (Inl e)
    then show ?thesis using Cons.prems by (auto simp: bare_hit split: if_splits option.splits)
  next
    case (Inr rs1)
    then have "map bare rs1 = map bare rs"
      using Cons.IH by blast
    then show ?thesis using Cons.prems Inr by (auto simp: bare_hit split: if_splits option.splits)
  qed
qed

lemma hits_loop_bare:
  "map bare (fst (hits_loop srch cs rs ts)) = map bare rs"
proof (induction ts arbitrary: rs)
  case Nil
  then show ?case by simp
next
  case (Cons t ts)
  show ?case
  proof (cases "scan_rules srch cs t 0 rs")
    case (Inl e)
    then show ?thesis by simp
  next
    case (Inr rs1)
    then show ?thesis using Cons.IH [of rs1] scan_rules_bare [OF Inr] by simp
  qed
qed

lemma update_rule_hits_bare:
  "map bare (fst (update_rule_hits srch cs rs ts)) = map bare rs"
proof -
  have "map bare (map (\<lambda>r. r\<lparr>hit := 0\<rparr>) rs) = map bare rs"
    by (simp add: bare_hit)
  then show ?thesis
    unfolding update_rule_hits_def
    using hits_loop_bare [of srch cs "map (\<lambda>r. r\<lparr>hit := 0\<rparr>) rs" "take 3000 ts"]
    by simp
qed

text \<open>A property of rules that looks at neither the error nor the counter.\<close>

lemma list_all_bare:
  assumes "map bare xs = map bare ys" and "\<And>r. P r = P (bare r)"
  shows "list_all P xs = list_all P ys"
proof -
  have "list_all P zs = list_all P (map bare zs)" for zs
    using assms(2) by (induction zs) auto
  then show ?thesis using assms(1) by metis
qed

section \<open>Loading a rule pack\<close>

lemma pack_rules_loop_scope:
  "list_all (\<lambda>r. scope r = SCOPE_GLOBAL \<and> apply_genre r = []) acc \<Longrightarrow>
   list_all (\<lambda>r. scope r = SCOPE_GLOBAL \<and> apply_genre r = []) (pack_rules_loop its acc)"
  by (induction its acc rule: pack_rules_loop.induct) (auto simp: pack_rule_of_def Rule_def)

lemma load_rules_pack_rules:
  assumes "files st path = Some data"
  shows "map bare (rules (fst (load_rules_pack cmp srch path st))) =
         map bare
           (pack_rules_loop (case data of Doc d \<Rightarrow> or_list (w_rules d) | Items its \<Rightarrow> its | Scalar \<Rightarrow> []) [])"
proof -
  let ?rs = "pack_rules_loop (case data of Doc d \<Rightarrow> or_list (w_rules d) | Items its \<Rightarrow> its | Scalar \<Rightarrow> []) []"
  let ?st1 = "st\<lparr>rules_pack_path := path, rules := ?rs\<rparr>"
  obtain rs1 cs1 e1 where rc: "recompile_loop cmp ?rs = (rs1, cs1, e1)"
    by (cases "recompile_loop cmp ?rs") auto
  have f1: "map bare rs1 = map bare ?rs"
    using recompile_loop_bare [of cmp ?rs] rc by simp
  show ?thesis
  proof (cases e1)
    case (Some e)
    then show ?thesis using assms rc f1
      by (simp add: load_rules_pack_def recompile_all_def and_then_def Let_def)
  next
    case None
    obtain rs2 e2 where uh: "update_rule_hits srch cs1 rs1 (sample_titles st) = (rs2, e2)"
      by (cases "update_rule_hits srch cs1 rs1 (sample_titles st)") auto
    have f2: "map bare rs2 = map bare rs1"
      using update_rule_hits_bare [of srch cs1 rs1 "sample_titles st"] uh by simp
    show ?thesis using assms rc None uh f1 f2
      by (simp add: load_rules_pack_def recompile_all_def and_then_def refresh_all_def Let_def)
  qed
qed

text \<open>
  Claim C10. Every rule that the rule-pack loader builds has the global scope and an
  empty genre, whatever the records say, and so has every rule of the state that
  \<^verbatim>\<open>load_rules_pack\<close> leaves after reading a file; the workspace loader takes both
  fields from the record.
\<close>

theorem load_rules_pack_global:
  "list_all (\<lambda>r. scope r = SCOPE_GLOBAL \<and> apply_genre r = []) (pack_rules_loop its []) \<and>
   (files st path = Some data \<longrightarrow>
      list_all (\<lambda>r. scope r = SCOPE_GLOBAL \<and> apply_genre r = [])
        (rules (fst (load_rules_pack cmp srch path st)))) \<and>
   scope (ws_rule_of it n) = or_str (d_scope it) SCOPE_GLOBAL \<and>
   apply_genre (ws_rule_of it n) = or_str (d_apply_genre it) []"
proof -
  have a: "list_all (\<lambda>r. scope r = SCOPE_GLOBAL \<and> apply_genre r = []) (pack_rules_loop xs [])" for xs
    by (rule pack_rules_loop_scope) simp
  have b: "list_all (\<lambda>r. scope r = SCOPE_GLOBAL \<and> apply_genre r = [])
        (rules (fst (load_rules_pack cmp srch path st)))" if "files st path = Some data"
    using list_all_bare [OF load_rules_pack_rules [OF that, of cmp srch],
        of "\<lambda>r. scope r = SCOPE_GLOBAL \<and> apply_genre r = []"] a
    by (simp add: bare_def)
  show ?thesis using a b by (simp add: ws_rule_of_def)
qed

text \<open>
  A record that asks for the temporary scope and the genre Comics: the rule pack gives
  a global rule, the workspace a temporary one.
\<close>

theorem load_rules_pack_global_witness:
  "files ((ex_app [])\<lparr>files := [''rules_pack.json'' \<mapsto>
            Items [Dict (ex_dict ''a'' ''abc'' ''TMP'' ''Comics''), NotDict]]\<rparr>) ''rules_pack.json'' =
     Some (Items [Dict (ex_dict ''a'' ''abc'' ''TMP'' ''Comics''), NotDict]) \<and>
   list_all (\<lambda>r. scope r = SCOPE_GLOBAL \<and> apply_genre r = [])
     (rules (fst (load_rules_pack lit_compile lit_search ''rules_pack.json''
        ((ex_app [])\<lparr>files := [''rules_pack.json'' \<mapsto>
            Items [Dict (ex_dict ''a'' ''abc'' ''TMP'' ''Comics''), NotDict]]\<rparr>)))) \<and>
   pack_rules_loop [Dict (ex_dict ''a'' ''abc'' ''TMP'' ''Comics''), NotDict] [] =
     [Rule ''a'' ''rule'' ''abc'' [] True 0 ''WORKSHOP'' [] None] \<and>
   scope (ws_rule_of (ex_dict ''a'' ''abc'' ''TMP'' ''Comics'') 0) = ''TMP'' \<and>
   apply_genre (ws_rule_of (ex_dict ''a'' ''abc'' ''TMP'' ''Comics'') 0) = ''Comics''"
  using load_rules_pack_global
    [of "[Dict (ex_dict ''a'' ''abc'' ''TMP'' ''Comics''), NotDict]"
        "(ex_app [])\<lparr>files := [''rules_pack.json'' \<mapsto>
            Items [Dict (ex_dict ''a'' ''abc'' ''TMP'' ''Comics''), NotDict]]\<rparr>"
        "''rules_pack.json''"
        "Items [Dict (ex_dict ''a'' ''abc'' ''TMP'' ''Comics''), NotDict]"
        lit_compile lit_search "ex_dict ''a'' ''abc'' ''TMP'' ''Comics''" 0]
  by (simp add: ex_dict_def or_str_def pack_rule_of_def load_genres_def)

section \<open>Keys of a collection\<close>

lemma map_key_bare: "map bare xs = map bare ys \<Longrightarrow> map key xs = map key ys"
proof -
  assume a: "map bare xs = map bare ys"
  have "map key zs = map key (map bare zs)" for zs
    by (induction zs) (auto simp: bare_def)
  then show ?thesis using a by metis
qed

lemma recompile_all_keys:
  "map key (rules (fst (recompile_all cmp st))) = map key (rules st)"
  using recompile_loop_bare [of cmp "rules st"]
  by (auto simp: recompile_all_def split: prod.splits intro: map_key_bare)

lemma refresh_all_keys:
  "map key (rules (fst (refresh_all srch st))) = map key (rules st)"
  using update_rule_hits_bare [of srch "compiled st" "rules st" "sample_titles st"]
  by (auto simp: refresh_all_def split: prod.splits intro: map_key_bare)

lemma and_then_refresh_keys:
  "map key (rules (fst (and_then x (refresh_all srch)))) = map key (rules (fst x))"
  by (cases x) (auto simp: and_then_def refresh_all_keys split: option.splits)

lemma add_heuristics_distinct:
  assumes "distinct (map key (rules st))" and "distinct (map key base)"
  shows "distinct (map key (rules (fst (add_heuristics cmp srch base st))))"
proof -
  let ?new = "filter (\<lambda>r. key r \<notin> set (map key (rules st))) base"
  have "map key (rules (fst (add_heuristics cmp srch base st))) = map key (rules st @ ?new)"
    by (simp add: add_heuristics_def Let_def and_then_refresh_keys recompile_all_keys)
  moreover have "distinct (map key (rules st @ ?new))"
  proof -
    have "distinct (map key ?new)"
      using assms(2) by (simp add: distinct_map_filter)
    moreover have "set (map key (rules st)) \<inter> set (map key ?new) = {}"
    proof -
      have "k \<notin> set (map key (rules st))" if "k \<in> set (map key ?new)" for k
        using that by auto
      then show ?thesis by blast
    qed
    ultimately show ?thesis using assms(1) by (simp only: map_append distinct_append)
  qed
  ultimately show ?thesis by simp
qed

lemma save_workspace_rules: "rules (save_workspace st) = rules st"
  by (simp add: save_workspace_def Let_def)

lemma add_new_rule_keys:
  "map key (rules (fst (add_new_rule cmp srch st))) =
   map key (rules st) @ [''custom_'' @ str_nat (length (rules st))]"
proof -
  let ?new = "Rule (''custom_'' @ str_nat (length (rules st)))
                (NEW_RULE_NAME @ str_nat (length (rules st))) [] [] True 0 ''WORKSHOP'' [] None"
  let ?st1 = "st\<lparr>rules := rules st @ [?new]\<rparr>"
  obtain s1 e1 where rc: "recompile_all cmp ?st1 = (s1, e1)"
    by (cases "recompile_all cmp ?st1") auto
  have k1: "map key (rules s1) = map key (rules st) @ [''custom_'' @ str_nat (length (rules st))]"
    using recompile_all_keys [of cmp ?st1] rc by (simp add: Rule_def)
  show ?thesis
  proof (cases e1)
    case (Some e)
    then show ?thesis using rc k1 by (simp add: add_new_rule_def Let_def and_then_def)
  next
    case None
    have ne: "rules s1 \<noteq> []" using k1 by auto
    have bl: "butlast (rules s1) @ [last (rules s1)] = rules s1"
      using ne by (rule append_butlast_last_id)
    have k2: "map key (butlast (rules s1) @ [last (rules s1)\<lparr>scope := sc, apply_genre := g\<rparr>]) =
          map key (rules s1)" for sc g
    proof -
      have "map key (butlast (rules s1) @ [last (rules s1)\<lparr>scope := sc, apply_genre := g\<rparr>]) =
            map key (butlast (rules s1) @ [last (rules s1)])"
        by simp
      then show ?thesis by (simp only: bl)
    qed
    show ?thesis using rc None k1 k2
      by (simp add: add_new_rule_def Let_def and_then_def refresh_all_keys save_workspace_rules
            del: map_append)
  qed
qed

lemma delete_selected_rule_keys:
  assumes "idx < length (rules st)"
  shows "map key (rules (fst (delete_selected_rule cmp srch (Some idx) True st))) =
         take idx (map key (rules st)) @ drop (Suc idx) (map key (rules st))"
  using assms
  by (simp add: delete_selected_rule_def and_then_refresh_keys recompile_all_keys
        take_map drop_map)

text \<open>
  Claim C6 at a failing input. From an empty collection two new rules get the keys
  \<open>custom_0\<close> and \<open>custom_1\<close>; the first is deleted; the next new rule is numbered by
  the length of the collection, which is 1 again, and the collection holds the key
  \<open>custom_1\<close> twice.
\<close>

theorem add_new_rule_duplicate_key:
  "map key (rules (fst (add_new_rule lit_compile lit_search
      (fst (add_new_rule lit_compile lit_search (ex_app []))))))
   = [''custom_0'', ''custom_1''] \<and>
   map key (rules (fst (add_new_rule lit_compile lit_search
      (fst (delete_selected_rule lit_compile lit_search (Some 0) True
        (fst (add_new_rule lit_compile lit_search
          (fst (add_new_rule lit_compile lit_search (ex_app []))))))))))
   = [''custom_1'', ''custom_1'']"
proof -
  let ?s1 = "fst (add_new_rule lit_compile lit_search (ex_app []))"
  let ?s2 = "fst (add_new_rule lit_compile lit_search ?s1)"
  let ?s3 = "fst (delete_selected_rule lit_compile lit_search (Some 0) True ?s2)"
  let ?s4 = "fst (add_new_rule lit_compile lit_search ?s3)"
  have k1: "map key (rules ?s1) = [''custom_0'']"
    by (simp only: add_new_rule_keys) (simp add: ex_app_def str_nat.simps [of 0])
  then have l1: "length (rules ?s1) = 1"
    using length_map [of key "rules ?s1"] by simp
  have k2: "map key (rules ?s2) = [''custom_0'', ''custom_1'']"
    by (simp only: add_new_rule_keys [of _ _ ?s1] k1 l1) (simp add: str_nat.simps [of 1] str_nat.simps [of "Suc 0"])
  then have l2: "length (rules ?s2) = 2"
    using length_map [of key "rules ?s2"] by simp
  have k3: "map key (rules ?s3) = [''custom_1'']"
    using delete_selected_rule_keys [of 0 ?s2 lit_compile lit_search] l2 k2 by simp
  then have l3: "length (rules ?s3) = 1"
    using length_map [of key "rules ?s3"] by simp
  have k4: "map key (rules ?s4) = [''custom_1'', ''custom_1'']"
    by (simp only: add_new_rule_keys [of _ _ ?s3] k3 l3) (simp add: str_nat.simps [of 1] str_nat.simps [of "Suc 0"])
  show ?thesis using k2 k4 by simp
qed

section \<open>Scope visibility\<close>

text \<open>
  No rule of the program has an empty scope: the constructor gives the global tag, the
  workspace loader replaces an empty scope by it, a new rule takes the selected scope,
  which is one of the three tags, and promotion writes a tag. Every operation keeps
  the rules that way.
\<close>

lemma or_str_nonempty: "d \<noteq> [] \<Longrightarrow> or_str v d \<noteq> []"
  by (simp add: or_str_def split: option.splits)

lemma scope_bare: "(scope r \<noteq> []) = (scope (bare r) \<noteq> [])"
  by (simp add: bare_def)

lemma pack_rules_loop_scoped:
  "list_all (\<lambda>r. scope r \<noteq> []) acc \<Longrightarrow>
   list_all (\<lambda>r. scope r \<noteq> []) (pack_rules_loop its acc)"
  by (induction its acc rule: pack_rules_loop.induct)
     (auto simp: pack_rule_of_def Rule_def SCOPE_GLOBAL_def)

lemma ws_rules_loop_scoped:
  "list_all (\<lambda>r. scope r \<noteq> []) acc \<Longrightarrow>
   list_all (\<lambda>r. scope r \<noteq> []) (ws_rules_loop its acc)"
  by (induction its acc rule: ws_rules_loop.induct)
     (auto simp: ws_rule_of_def or_str_nonempty SCOPE_GLOBAL_def)

lemma recompile_all_scoped:
  "list_all (\<lambda>r. scope r \<noteq> []) (rules (fst (recompile_all cmp st))) =
   list_all (\<lambda>r. scope r \<noteq> []) (rules st)"
proof -
  have "map bare (rules (fst (recompile_all cmp st))) = map bare (rules st)"
    using recompile_loop_bare [of cmp "rules st"]
    by (cases "recompile_loop cmp (rules st)") (simp add: recompile_all_def)
  then show ?thesis by (rule list_all_bare) (rule scope_bare)
qed

lemma refresh_all_scoped:
  "list_all (\<lambda>r. scope r \<noteq> []) (rules (fst (refresh_all srch st))) =
   list_all (\<lambda>r. scope r \<noteq> []) (rules st)"
proof -
  have "map bare (rules (fst (refresh_all srch st))) = map bare (rules st)"
    using update_rule_hits_bare [of srch "compiled st" "rules st" "sample_titles st"]
    by (cases "update_rule_hits srch (compiled st) (rules st) (sample_titles st)")
       (simp add: refresh_all_def)
  then show ?thesis by (rule list_all_bare) (rule scope_bare)
qed

lemma and_then_refresh_scoped:
  "list_all (\<lambda>r. scope r \<noteq> []) (rules (fst (and_then x (refresh_all srch)))) =
   list_all (\<lambda>r. scope r \<noteq> []) (rules (fst x))"
  by (cases x) (auto simp: and_then_def refresh_all_scoped split: option.splits)

lemma get_current_scope_nonempty: "get_current_scope st \<noteq> []"
  by (simp add: get_current_scope_def scope_key_from_label_def SCOPE_LABELS_def
        SCOPE_TMP_def SCOPE_GLOBAL_def SCOPE_GENRE_def split: option.splits)

lemma load_workspace_scoped:
  assumes "list_all (\<lambda>r. scope r \<noteq> []) (rules st)"
  shows "list_all (\<lambda>r. scope r \<noteq> []) (rules (fst (load_workspace srch path st)))"
proof (cases "files st path")
  case None
  then show ?thesis using assms by (simp add: load_workspace_def)
next
  case (Some f)
  show ?thesis
  proof (cases f)
    case (Doc data)
    have "list_all (\<lambda>r. scope r \<noteq> [])
            (map (\<lambda>r. if scope r = [] then r\<lparr>scope := SCOPE_GLOBAL\<rparr> else r) xs)" for xs
      by (induction xs) (auto simp: SCOPE_GLOBAL_def)
    then show ?thesis using Some Doc
      by (simp add: load_workspace_def refresh_all_scoped ensure_scoped_structures_def Let_def)
  qed (use Some assms in \<open>simp_all add: load_workspace_def\<close>)
qed

lemma load_rules_pack_scoped:
  assumes "list_all (\<lambda>r. scope r \<noteq> []) (rules st)"
  shows "list_all (\<lambda>r. scope r \<noteq> []) (rules (fst (load_rules_pack cmp srch path st)))"
proof (cases "files st path")
  case None
  then show ?thesis using assms by (simp add: load_rules_pack_def)
next
  case (Some data)
  have "list_all (\<lambda>r. scope r \<noteq> []) (pack_rules_loop xs [])" for xs
    by (rule pack_rules_loop_scoped) simp
  then show ?thesis using Some
    by (simp add: load_rules_pack_def Let_def and_then_refresh_scoped recompile_all_scoped)
qed

lemma add_new_rule_scoped:
  assumes "list_all (\<lambda>r. scope r \<noteq> []) (rules st)"
  shows "list_all (\<lambda>r. scope r \<noteq> []) (rules (fst (add_new_rule cmp srch st)))"
proof -
  let ?st1 = "st\<lparr>rules := rules st @
      [Rule (''custom_'' @ str_nat (length (rules st))) (NEW_RULE_NAME @ str_nat (length (rules st)))
         [] [] True 0 ''WORKSHOP'' [] None]\<rparr>"
  obtain s1 e1 where rc: "recompile_all cmp ?st1 = (s1, e1)"
    by (cases "recompile_all cmp ?st1") auto
  have a1: "list_all (\<lambda>r. scope r \<noteq> []) (rules s1)"
    using recompile_all_scoped [of cmp ?st1] rc assms by (simp add: Rule_def SCOPE_GLOBAL_def)
  show ?thesis
  proof (cases e1)
    case (Some e)
    then show ?thesis using rc a1 by (simp add: add_new_rule_def Let_def and_then_def)
  next
    case None
    have "list_all (\<lambda>r. scope r \<noteq> []) (butlast (rules s1))"
      using a1 by (auto simp: list_all_iff dest: in_set_butlastD)
    then show ?thesis using rc None get_current_scope_nonempty [of s1]
      by (simp add: add_new_rule_def Let_def and_then_def refresh_all_scoped
            save_workspace_rules)
  qed
qed

lemma add_heuristics_scoped:
  assumes "list_all (\<lambda>r. scope r \<noteq> []) (rules st)" and "list_all (\<lambda>r. scope r \<noteq> []) base"
  shows "list_all (\<lambda>r. scope r \<noteq> []) (rules (fst (add_heuristics cmp srch base st)))"
proof -
  have "list_all (\<lambda>r. scope r \<noteq> [])
          (rules st @ filter (\<lambda>r. key r \<notin> set (map key (rules st))) base)"
    using assms by (auto simp: list_all_iff)
  then show ?thesis
    by (simp add: add_heuristics_def Let_def and_then_refresh_scoped recompile_all_scoped)
qed

lemma delete_selected_rule_scoped:
  assumes "list_all (\<lambda>r. scope r \<noteq> []) (rules st)"
  shows "list_all (\<lambda>r. scope r \<noteq> []) (rules (fst (delete_selected_rule cmp srch sel yes st)))"
proof -
  have "list_all (\<lambda>r. scope r \<noteq> []) (take i (rules st) @ drop (Suc i) (rules st))" for i
    using assms by (auto simp: list_all_iff dest: in_set_takeD in_set_dropD)
  then show ?thesis using assms
    by (simp add: delete_selected_rule_def and_then_refresh_scoped recompile_all_scoped
          split: option.splits)
qed

lemma promote_scoped:
  assumes "list_all (\<lambda>r. scope r \<noteq> []) (rules st)"
  shows "list_all (\<lambda>r. scope r \<noteq> []) (rules (fst (promote_selected_rule_to_global sel st)))"
    and "list_all (\<lambda>r. scope r \<noteq> []) (rules (fst (promote_selected_rule_to_genre sel st)))"
proof -
  have "list_all (\<lambda>r. scope r \<noteq> []) ((rules st)[i := q])" if "scope q \<noteq> []" for i q
    using assms that set_update_subset_insert [of "rules st" i q]
    by (auto simp: list_all_iff)
  then show "list_all (\<lambda>r. scope r \<noteq> []) (rules (fst (promote_selected_rule_to_global sel st)))"
    and "list_all (\<lambda>r. scope r \<noteq> []) (rules (fst (promote_selected_rule_to_genre sel st)))"
    using assms
    by (simp_all add: promote_selected_rule_to_global_def promote_selected_rule_to_genre_def
          save_workspace_rules SCOPE_GLOBAL_def SCOPE_GENRE_def split: option.splits)
qed

lemma clear_tmp_scope_scoped:
  assumes "list_all (\<lambda>r. scope r \<noteq> []) (rules st)"
  shows "list_all (\<lambda>r. scope r \<noteq> []) (rules (clear_tmp_scope yes st))"
  using assms by (simp add: clear_tmp_scope_def save_workspace_rules list_all_iff)

text \<open>
  Claim C3. For a rule whose scope is not empty: under the temporary context it is
  visible iff its scope is the temporary tag; under the global context iff its scope is
  the global tag; under the genre context with genre \<open>g\<close> iff its scope is the genre
  tag and its genre is \<open>g\<close>.
\<close>

theorem visible_iff:
  assumes "scope r \<noteq> []"
  shows "(visible SCOPE_TMP g r \<longleftrightarrow> scope r = SCOPE_TMP) \<and>
         (visible SCOPE_GLOBAL g r \<longleftrightarrow> scope r = SCOPE_GLOBAL) \<and>
         (visible SCOPE_GENRE g r \<longleftrightarrow> scope r = SCOPE_GENRE \<and> apply_genre r = g)"
  using assms by (auto simp: visible_def SCOPE_GLOBAL_def SCOPE_TMP_def SCOPE_GENRE_def)

text \<open>
  A genre rule for Comics is visible under (genre, Comics) and under no other context.
\<close>

theorem visible_iff_witness:
  "scope ((ex_rule ''k'' ''p'' SCOPE_GENRE)\<lparr>apply_genre := ''Comics''\<rparr>) \<noteq> [] \<and>
   visible SCOPE_GENRE ''Comics'' ((ex_rule ''k'' ''p'' SCOPE_GENRE)\<lparr>apply_genre := ''Comics''\<rparr>) \<and>
   \<not> visible SCOPE_GENRE ''Novels'' ((ex_rule ''k'' ''p'' SCOPE_GENRE)\<lparr>apply_genre := ''Comics''\<rparr>) \<and>
   \<not> visible SCOPE_TMP ''Comics'' ((ex_rule ''k'' ''p'' SCOPE_GENRE)\<lparr>apply_genre := ''Comics''\<rparr>) \<and>
   \<not> visible SCOPE_GLOBAL ''Comics'' ((ex_rule ''k'' ''p'' SCOPE_GENRE)\<lparr>apply_genre := ''Comics''\<rparr>)"
proof -
  have h: "scope ((ex_rule ''k'' ''p'' SCOPE_GENRE)\<lparr>apply_genre := ''Comics''\<rparr>) \<noteq> []"
    by (simp add: ex_rule_def SCOPE_GENRE_def)
  show ?thesis
    using h visible_iff [OF h, of "''Comics''"] visible_iff [OF h, of "''Novels''"]
    by (simp add: ex_rule_def Rule_def SCOPE_GLOBAL_def SCOPE_TMP_def SCOPE_GENRE_def)
qed

section \<open>Saving and loading a workspace\<close>



lemma scan_rules_unhit:
  "scan_rules srch cs t idx rs = Inr rs' \<Longrightarrow>
   map (\<lambda>r. r\<lparr>hit := 0\<rparr>) rs' = map (\<lambda>r. r\<lparr>hit := 0\<rparr>) rs"
proof (induction rs arbitrary: idx rs')
  case Nil
  then show ?case by simp
next
  case (Cons r rs)
  show ?case
  proof (cases "scan_rules srch cs t (Suc idx) rs")
    case (Inl e)
    then show ?thesis using Cons.prems by (auto split: if_splits option.splits)
  next
    case (Inr rs1)
    then have "map (\<lambda>r. r\<lparr>hit := 0\<rparr>) rs1 = map (\<lambda>r. r\<lparr>hit := 0\<rparr>) rs"
      using Cons.IH by blast
    then show ?thesis using Cons.prems Inr by (auto split: if_splits option.splits)
  qed
qed

lemma hits_loop_unhit:
  "map (\<lambda>r. r\<lparr>hit := 0\<rparr>) (fst (hits_loop srch cs rs ts)) = map (\<lambda>r. r\<lparr>hit := 0\<rparr>) rs"
proof (induction ts arbitrary: rs)
  case Nil
  then show ?case by simp
next
  case (Cons t ts)
  show ?case
  proof (cases "scan_rules srch cs t 0 rs")
    case (Inl e)
    then show ?thesis by simp
  next
    case (Inr rs1)
    then show ?thesis using Cons.IH [of rs1] scan_rules_unhit [OF Inr] by simp
  qed
qed














section \<open>A rule whose pattern does not compile\<close>





lemma hits_loop_length: "length (fst (hits_loop srch cs rs ts)) = length rs"
  using hits_loop_unhit [of srch cs rs ts] length_map by metis















end
